theory Spec2Isabelle
  imports Main "HOL-Library.Word"
begin

unbundle bit_operations_syntax

section \<open>Data model of the sparse keymap module\<close>

text \<open>
  The entry types of a sparse keymap. \<open>KE_END\<close> marks the sentinel entry that ends a
  table; the module's loops all run \<open>for (key = dev->keycode; key->type != KE_END; key++)\<close>.
  The enumeration is the one of the kernel header \<open>linux/input/sparse-keymap.h\<close>, which the
  module includes.
\<close>

datatype ke_type = KE_END | KE_KEY | KE_SW | KE_VSW | KE_IGNORE | KE_LAST

text \<open>
  Modelled from the spec: \<open>struct key_entry\<close> is declared in the kernel header
  \<open>linux/input/sparse-keymap.h\<close> and not in the repository. The module reads and writes
  three of its members: \<open>type\<close>, \<open>code\<close> (the stored scancode, an integer of
  \<open>sizeof(key->code) = 4\<close> bytes) and \<open>keycode\<close> (an unsigned integer code, 0 being the
  reserved one). The keycode is kept at the width of the request's \<open>keycode\<close> member, so that
  \<open>key->keycode = ke->keycode\<close> and \<open>*old_keycode = key->keycode\<close> are plain copies. (The
  kernel's member is 16 bits wide; the input core hands the module only keycodes up to
  \<open>KEY_MAX = 0x2ff\<close>, on which the narrowing is the identity.)
\<close>

record key_entry =
  ke_type :: ke_type
  ke_code :: "32 word"
  ke_keycode :: "32 word"

text \<open>
  \<open>struct input_keymap_entry\<close>, as quoted in the client's source: \<open>__u8 flags\<close>,
  \<open>__u8 len\<close>, \<open>__u16 index\<close>, \<open>__u32 keycode\<close>, \<open>__u8 scancode[32]\<close>.
\<close>

record input_keymap_entry =
  ike_flags :: "8 word"
  ike_len :: "8 word"
  ike_index :: "16 word"
  ike_keycode :: "32 word"
  ike_scancode :: "8 word list"

definition INPUT_KEYMAP_BY_INDEX :: "8 word" where
  "INPUT_KEYMAP_BY_INDEX = push_bit 0 1"

definition KEY_RESERVED :: "32 word" where
  "KEY_RESERVED = 0"

text \<open>
  The two members of \<open>struct input_dev\<close> the module touches: \<open>dev->keycode\<close>, a pointer to
  the table (\<open>None\<close> is the null pointer; the list is the array the pointer refers to, which
  the loops leave at the first \<open>KE_END\<close> entry), and \<open>dev->keybit\<close>, the bitmap of active
  keycodes, kept as the set of the bit numbers that are set.
\<close>

record input_dev =
  dev_keycode :: "key_entry list option"
  dev_keybit :: "32 word set"

text \<open>
  Error numbers are the C integers; the module returns \<open>-EINVAL\<close>, which the caller of the
  \<open>ioctl\<close> sees as \<open>errno == EINVAL\<close>. A return code is \<open>Inl\<close> of the error number or
  \<open>Inr\<close> of what a successful call hands back.
\<close>

type_synonym errno = int

definition EINVAL :: errno where
  "EINVAL = 22"

section \<open>Primitives the module calls\<close>

text \<open>\<open>set_bit(nr, addr)\<close> and \<open>clear_bit(nr, addr)\<close> on a bitmap.\<close>

definition set_bit_bm :: "32 word \<Rightarrow> 32 word set \<Rightarrow> 32 word set" where
  "set_bit_bm nr bm = insert nr bm"

definition clear_bit_bm :: "32 word \<Rightarrow> 32 word set \<Rightarrow> 32 word set" where
  "clear_bit_bm nr bm = bm - {nr}"

text \<open>
  An \<open>unsigned int\<close> seen as its four bytes in memory and back. The replacement functions
  are installed on x86 only (the pre-handlers redirect the instruction pointer under
  \<open>CONFIG_X86\<close>), so the byte order is little-endian: byte 0 is the least significant.
\<close>

definition word_bytes :: "32 word \<Rightarrow> 8 word list" where
  "word_bytes w = map (\<lambda>i. ucast (drop_bit (8 * i) w)) [0..<4]"

definition bytes_word :: "8 word list \<Rightarrow> 32 word" where
  "bytes_word bs = foldr (\<lambda>b acc. ucast b OR push_bit 8 acc) bs 0"

text \<open>\<open>memcpy(dst, src, n)\<close> on byte arrays: the first \<open>n\<close> bytes of \<open>dst\<close> are replaced.\<close>

definition memcpy :: "8 word list \<Rightarrow> 8 word list \<Rightarrow> nat \<Rightarrow> 8 word list" where
  "memcpy dst src n = take n src @ drop n dst"

text \<open>
  \<open>input_scancode_to_scalar\<close> of the input core: a scancode of 1, 2 or 4 bytes is read as
  an integer of that size, any other length is refused (\<open>None\<close> for \<open>-EINVAL\<close>).
\<close>

definition input_scancode_to_scalar :: "input_keymap_entry \<Rightarrow> 32 word option" where
  "input_scancode_to_scalar ke =
     (if ike_len ke = 1 then Some (bytes_word (take 1 (ike_scancode ke)))
      else if ike_len ke = 2 then Some (bytes_word (take 2 (ike_scancode ke)))
      else if ike_len ke = 4 then Some (bytes_word (take 4 (ike_scancode ke)))
      else None)"

section \<open>Lookup\<close>

text \<open>
  A \<open>struct key_entry *\<close> into the table is the position of the entry in the array. Each
  loop carries the position \<open>p\<close> of \<open>key\<close>; the array ends with the sentinel, so running off
  the list is treated as meeting it.
\<close>

fun get_key_index_loop :: "key_entry list \<Rightarrow> nat \<Rightarrow> nat \<Rightarrow> 32 word \<Rightarrow> 32 word" where
  "get_key_index_loop [] p k idx = idx"
| "get_key_index_loop (key # rest) p k idx =
     (if ke_type key = KE_END then idx
      else if p = k then idx
      else get_key_index_loop rest (Suc p) k (idx + 1))"

definition sparse_keymap_get_key_index :: "key_entry list \<Rightarrow> nat \<Rightarrow> 32 word" where
  "sparse_keymap_get_key_index tbl k = get_key_index_loop tbl 0 k 0"

fun entry_by_index_loop :: "key_entry list \<Rightarrow> nat \<Rightarrow> 32 word \<Rightarrow> 32 word \<Rightarrow> nat option" where
  "entry_by_index_loop [] p key_cnt index = None"
| "entry_by_index_loop (key # rest) p key_cnt index =
     (if ke_type key = KE_END then None
      else if key_cnt = index then Some p
      else entry_by_index_loop rest (Suc p) (key_cnt + 1) index)"

definition sparse_keymap_entry_by_index_all :: "key_entry list \<Rightarrow> 32 word \<Rightarrow> nat option" where
  "sparse_keymap_entry_by_index_all tbl index = entry_by_index_loop tbl 0 0 index"

fun entry_from_scancode_loop :: "key_entry list \<Rightarrow> nat \<Rightarrow> 32 word \<Rightarrow> nat option" where
  "entry_from_scancode_loop [] p code = None"
| "entry_from_scancode_loop (key # rest) p code =
     (if ke_type key = KE_END then None
      else if code = ke_code key then Some p
      else entry_from_scancode_loop rest (Suc p) code)"

definition sparse_keymap_entry_from_scancode_all :: "key_entry list \<Rightarrow> 32 word \<Rightarrow> nat option" where
  "sparse_keymap_entry_from_scancode_all tbl code = entry_from_scancode_loop tbl 0 code"

text \<open>
  \<open>sparse_keymap_entry_from_keycode\<close> is the kernel's exported lookup; the module carries a
  copy of its body in a comment (\<open>sparse_keymap_entry_from_keycode_UNUSED\<close>): the first
  entry of type \<open>KE_KEY\<close> with the given keycode.
\<close>

fun entry_from_keycode_loop :: "key_entry list \<Rightarrow> nat \<Rightarrow> 32 word \<Rightarrow> nat option" where
  "entry_from_keycode_loop [] p keycode = None"
| "entry_from_keycode_loop (key # rest) p keycode =
     (if ke_type key = KE_END then None
      else if ke_type key = KE_KEY \<and> keycode = ke_keycode key then Some p
      else entry_from_keycode_loop rest (Suc p) keycode)"

definition sparse_keymap_entry_from_keycode :: "key_entry list \<Rightarrow> 32 word \<Rightarrow> nat option" where
  "sparse_keymap_entry_from_keycode tbl keycode = entry_from_keycode_loop tbl 0 keycode"

definition sparse_keymap_locate_all :: "key_entry list \<Rightarrow> input_keymap_entry \<Rightarrow> nat option" where
  "sparse_keymap_locate_all tbl ke =
     (if ike_flags ke AND INPUT_KEYMAP_BY_INDEX \<noteq> 0
        then sparse_keymap_entry_by_index_all tbl (ucast (ike_index ke))
      else case input_scancode_to_scalar ke of
             Some scancode \<Rightarrow> sparse_keymap_entry_from_scancode_all tbl scancode
           | None \<Rightarrow> None)"

section \<open>Get and set\<close>

text \<open>
  \<open>sparse_keymap_getkeycode_all\<close> fills the request record in place; the model returns the
  return code together with the record as the call leaves it.
\<close>

definition sparse_keymap_getkeycode_all ::
  "input_dev \<Rightarrow> input_keymap_entry \<Rightarrow> (errno + unit) \<times> input_keymap_entry" where
  "sparse_keymap_getkeycode_all dev ke =
     (case dev_keycode dev of
        None \<Rightarrow> (Inl EINVAL, ke)
      | Some tbl \<Rightarrow>
          (case sparse_keymap_locate_all tbl ke of
             None \<Rightarrow> (Inl EINVAL, ke)
           | Some k \<Rightarrow>
               let key = tbl ! k;
                   ke = ke\<lparr>ike_keycode := ke_keycode key\<rparr>;
                   ke = (if \<not> (ike_flags ke AND INPUT_KEYMAP_BY_INDEX \<noteq> 0)
                         then ke\<lparr>ike_index := ucast (sparse_keymap_get_key_index tbl k)\<rparr>
                         else ke);
                   ke = ke\<lparr>ike_len := 4\<rparr>;
                   ke = ke\<lparr>ike_scancode := memcpy (ike_scancode ke) (word_bytes (ke_code key)) 4\<rparr>
               in (Inr (), ke)))"

text \<open>
  \<open>sparse_keymap_setkeycode_all\<close> mutates the device in place and writes \<open>*old_keycode\<close>;
  the model returns the return code (with the old keycode on success) together with the
  device as the call leaves it.
\<close>

definition sparse_keymap_setkeycode_all ::
  "input_dev \<Rightarrow> input_keymap_entry \<Rightarrow> (errno + 32 word) \<times> input_dev" where
  "sparse_keymap_setkeycode_all dev ke =
     (case dev_keycode dev of
        None \<Rightarrow> (Inl EINVAL, dev)
      | Some tbl \<Rightarrow>
          (case sparse_keymap_locate_all tbl ke of
             None \<Rightarrow> (Inl EINVAL, dev)
           | Some k \<Rightarrow>
               if unat (ike_len ke) > 4 then (Inl EINVAL, dev)
               else
                 let key = tbl ! k;
                     old_type = ke_type key;
                     old_keycode = ke_keycode key;
                     key = (if ike_keycode ke = KEY_RESERVED
                            then (if ke_type key = KE_KEY then key\<lparr>ke_type := KE_IGNORE\<rparr> else key)
                            else (if ke_type key = KE_IGNORE then key\<lparr>ke_type := KE_KEY\<rparr> else key));
                     key = key\<lparr>ke_keycode := ike_keycode ke\<rparr>;
                     key = key\<lparr>ke_code := 0\<rparr>;
                     key = key\<lparr>ke_code :=
                             bytes_word (memcpy (word_bytes (ke_code key)) (ike_scancode ke)
                                           (unat (ike_len ke)))\<rparr>;
                     tbl = tbl[k := key];
                     keybit = dev_keybit dev;
                     keybit = (if old_type = KE_KEY
                               then (let keybit = clear_bit_bm old_keycode keybit
                                     in if sparse_keymap_entry_from_keycode tbl old_keycode \<noteq> None
                                        then set_bit_bm old_keycode keybit else keybit)
                               else keybit);
                     keybit = (if ke_type key = KE_KEY
                               then (let keybit = set_bit_bm (ike_keycode ke) keybit
                                     in if sparse_keymap_entry_from_keycode tbl old_keycode = None
                                        then clear_bit_bm old_keycode keybit else keybit)
                               else keybit)
                 in (Inr old_keycode, dev\<lparr>dev_keycode := Some tbl, dev_keybit := keybit\<rparr>)))"

section \<open>The enumeration client\<close>

text \<open>
  What the client writes: a line of text on one of the two streams, a line given by its
  \<open>printf\<close> format together with the values of its arguments, or a row of the table dump.
  A row is kept as the response record it is printed from (index, scancode bytes and length,
  keycode); the formatting of its columns is not modelled. A line of \<open>perror\<close> is kept as
  the argument of \<open>perror\<close>, without the text of the error number.
\<close>

datatype stream = Stdout | Stderr

datatype written =
    Text stream string
  | Formatted stream string "nat list"
  | Row input_keymap_entry

text \<open>
  The state of the client process: \<open>dev\<close> and \<open>act\<close> of \<open>main\<close>, and what has been
  written so far. A call either returns (\<open>Continue\<close>) or ends the process through
  \<open>exit(status)\<close> (\<open>Exit status\<close>).
\<close>

record process =
  proc_dev :: int
  proc_act :: int
  proc_out :: "written list"

datatype step = Exit int process | Continue process

definition write_out :: "written list \<Rightarrow> process \<Rightarrow> process" where
  "write_out items pr = pr\<lparr>proc_out := proc_out pr @ items\<rparr>"

definition check_device :: "int \<Rightarrow> process \<Rightarrow> step" where
  "check_device dev pr =
     (if dev < 0 then Exit 1 (write_out [Text Stderr ''No device opened''] pr)
      else Continue pr)"

text \<open>
  How the loop of \<open>print_keymap\<close> ends: \<open>break\<close> at an index on \<open>errno == EINVAL\<close>, the
  loop condition \<open>i < 0x10000\<close> failing, or one of the three \<open>exit(1)\<close> branches: the
  \<open>ioctl\<close> failing with another error number, the response's index (first value) differing
  from the index asked for (second value), or the response's length (the value) exceeding
  the 32 bytes of the scancode member.
\<close>

datatype loop_end =
    Break nat
  | Loop_condition
  | Ioctl_failed errno
  | Index_inconsistent nat nat
  | Len_inconsistent nat

text \<open>
  The loop of \<open>print_keymap\<close>, from index \<open>i\<close> on. \<open>ioctl\<close> is the
  \<open>EVIOCGKEYCODE_V2\<close> request on the open device; \<open>ke\<close> is the record on the stack, which
  keeps between iterations whatever the previous call left in it. The result is the rows
  printed and the way the loop ended.
\<close>

function print_keymap_loop ::
  "(input_keymap_entry \<Rightarrow> (errno + unit) \<times> input_keymap_entry) \<Rightarrow> input_keymap_entry \<Rightarrow> nat
     \<Rightarrow> input_keymap_entry list \<times> loop_end" where
  "print_keymap_loop ioctl ke i =
     (if i < 0x10000 then
        (case ioctl (ke\<lparr>ike_index := of_nat i, ike_flags := INPUT_KEYMAP_BY_INDEX\<rparr>) of
           (Inl e, ke) \<Rightarrow> if e = EINVAL then ([], Break i) else ([], Ioctl_failed e)
         | (Inr _, ke) \<Rightarrow>
             if unat (ike_index ke) \<noteq> i then ([], Index_inconsistent (unat (ike_index ke)) i)
             else if unat (ike_len ke) > 32 then ([], Len_inconsistent (unat (ike_len ke)))
             else (case print_keymap_loop ioctl ke (Suc i) of
                     (rows, e) \<Rightarrow> (ke # rows, e)))
      else ([], Loop_condition))"
  by pat_completeness auto
termination
  by (relation "measure (\<lambda>(ioctl, ke, i). 0x10000 - i)") auto

declare print_keymap_loop.simps [simp del]

definition print_keymap ::
  "(input_keymap_entry \<Rightarrow> (errno + unit) \<times> input_keymap_entry) \<Rightarrow> input_keymap_entry \<Rightarrow> int
     \<Rightarrow> process \<Rightarrow> step" where
  "print_keymap ioctl ke dev pr =
     (case check_device dev pr of
        Exit status pr \<Rightarrow> Exit status pr
      | Continue pr \<Rightarrow>
          let pr = write_out [Text Stdout ''index scancode    keycode name''] pr in
          (case print_keymap_loop ioctl ke 0 of
             (rows, Ioctl_failed e) \<Rightarrow>
               Exit 1 (write_out (map Row rows @ [Text Stderr ''ioctl(EVIOCGKEYCODE_V2)'']) pr)
           | (rows, Index_inconsistent index i) \<Rightarrow>
               Exit 1 (write_out (map Row rows @
                 [Formatted Stderr ''Inconsistency detected: index: %d != %d'' [index, i]]) pr)
           | (rows, Len_inconsistent len) \<Rightarrow>
               Exit 1 (write_out (map Row rows @
                 [Formatted Stderr ''Inconsistency detected: len: %d > %zd'' [len, 32]]) pr)
           | (rows, _) \<Rightarrow> Continue (write_out (map Row rows) pr)))"

text \<open>The help message of \<open>usage\<close>, line by line.\<close>

definition usage_text :: "string list" where
  "usage_text =
     [''evdev_map -- manipulate evdev keycode tables'',
      ''Usage: evdev_map -d device [-p] [-s scancode=keycode]'',
      [],
      ''    -d device                  select the input device'',
      ''    -p                         print the current map'',
      ''                               columns: index scancode keycode key_name'',
      ''    -s [idx:]scancode=keycode  change the mapping for a scancode'',
      ''                               (key names work too; use 0x0 for RESERVED)'',
      ''    -h                         print this message'',
      ''Options are processed in order and can be repeated.'']"

definition usage :: "int \<Rightarrow> process \<Rightarrow> step" where
  "usage ret pr =
     (let out = (if ret \<noteq> 0 then Stderr else Stdout);
          pr = write_out (map (Text out) usage_text) pr
      in if ret \<noteq> 0 then Exit ret pr else Continue pr)"

text \<open>
  What \<open>getopt(argc, argv, "d:ps:h")\<close> hands to \<open>main\<close> on one call: an option letter with
  its argument, or \<open>?\<close> for anything else. What \<open>main\<close> depends on outside the process: the
  descriptor \<open>open(optarg, O_RDONLY)\<close> returns (negative on failure), and the two actions
  behind \<open>-p\<close> and \<open>-s\<close> on a descriptor.
\<close>

datatype getopt_result = Opt_d string | Opt_p | Opt_s string | Opt_h | Opt_other

record environment =
  env_open :: "string \<Rightarrow> int"
  env_print_keymap :: "int \<Rightarrow> process \<Rightarrow> step"
  env_set_keycode :: "int \<Rightarrow> string \<Rightarrow> process \<Rightarrow> step"

text \<open>
  The body of the \<open>switch\<close> in \<open>main\<close>. Closing the descriptor opened by an earlier
  \<open>-d\<close> changes nothing that is modelled; the message of \<open>perror\<close> is kept as its
  argument.
\<close>

definition main_switch :: "environment \<Rightarrow> getopt_result \<Rightarrow> process \<Rightarrow> step" where
  "main_switch env opt pr =
     (case opt of
        Opt_d optarg \<Rightarrow>
          let pr = pr\<lparr>proc_dev := env_open env optarg\<rparr>
          in if proc_dev pr < 0 then Exit 1 (write_out [Text Stderr optarg] pr) else Continue pr
      | Opt_p \<Rightarrow>
          (case env_print_keymap env (proc_dev pr) pr of
             Exit status pr \<Rightarrow> Exit status pr
           | Continue pr \<Rightarrow> Continue (pr\<lparr>proc_act := 1\<rparr>))
      | Opt_s optarg \<Rightarrow>
          (case env_set_keycode env (proc_dev pr) optarg pr of
             Exit status pr \<Rightarrow> Exit status pr
           | Continue pr \<Rightarrow> Continue (pr\<lparr>proc_act := 1\<rparr>))
      | Opt_h \<Rightarrow> usage 0 pr
      | Opt_other \<Rightarrow> usage 1 pr)"

text \<open>The \<open>while\<close> loop of \<open>main\<close> over the options \<open>getopt\<close> returns, in order.\<close>

fun main_loop :: "environment \<Rightarrow> getopt_result list \<Rightarrow> process \<Rightarrow> step" where
  "main_loop env [] pr = Continue pr"
| "main_loop env (opt # opts) pr =
     (case main_switch env opt pr of
        Exit status pr \<Rightarrow> Exit status pr
      | Continue pr \<Rightarrow> main_loop env opts pr)"

text \<open>
  \<open>main\<close>: \<open>opts\<close> are the options of the command line as \<open>getopt\<close> returns them,
  \<open>operands\<close> says whether arguments are left after them (\<open>optind < argc\<close>). The result is
  the exit status of the process with its final state.
\<close>

definition main :: "environment \<Rightarrow> getopt_result list \<Rightarrow> bool \<Rightarrow> int \<times> process" where
  "main env opts operands =
     (case main_loop env opts \<lparr>proc_dev = -1, proc_act = 0, proc_out = []\<rparr> of
        Exit status pr \<Rightarrow> (status, pr)
      | Continue pr \<Rightarrow>
          if operands \<or> proc_act pr = 0
          then (case usage 1 pr of Exit status pr \<Rightarrow> (status, pr) | Continue pr \<Rightarrow> (0, pr))
          else (0, pr))"

section \<open>The table as the specification sees it\<close>

text \<open>
  The entries of a table are those before the sentinel; the index of an entry is its position
  among them, and the length of the table is their number. A device without a table has none.
\<close>

definition keymap_entries :: "key_entry list \<Rightarrow> key_entry list" where
  "keymap_entries tbl = takeWhile (\<lambda>key. ke_type key \<noteq> KE_END) tbl"

definition table_entries :: "input_dev \<Rightarrow> key_entry list" where
  "table_entries dev = (case dev_keycode dev of None \<Rightarrow> [] | Some tbl \<Rightarrow> keymap_entries tbl)"

definition table_length :: "input_dev \<Rightarrow> nat" where
  "table_length dev = length (table_entries dev)"

text \<open>
  The active-set invariant: a bit of \<open>dev->keybit\<close> is set exactly when some entry of the
  table has type \<open>KE_KEY\<close> and that keycode.
\<close>

definition active_set_invariant :: "input_dev \<Rightarrow> bool" where
  "active_set_invariant dev \<longleftrightarrow>
     (\<forall>keycode. keycode \<in> dev_keybit dev \<longleftrightarrow>
        (\<exists>key \<in> set (table_entries dev). ke_type key = KE_KEY \<and> ke_keycode key = keycode))"

section \<open>Example data\<close>

text \<open>
  The table of the specification's scenario: two \<open>KE_KEY\<close> entries sharing keycode 5, one
  \<open>KE_IGNORE\<close> entry, and the sentinel; bit 5 is the only active keycode.
\<close>

definition scenario_table :: "key_entry list" where
  "scenario_table =
     [\<lparr>ke_type = KE_KEY, ke_code = 0x1122, ke_keycode = 5\<rparr>,
      \<lparr>ke_type = KE_KEY, ke_code = 0x3344, ke_keycode = 5\<rparr>,
      \<lparr>ke_type = KE_IGNORE, ke_code = 0x5566, ke_keycode = 0\<rparr>,
      \<lparr>ke_type = KE_END, ke_code = 0, ke_keycode = 0\<rparr>]"

definition scenario_dev :: input_dev where
  "scenario_dev = \<lparr>dev_keycode = Some scenario_table, dev_keybit = {5}\<rparr>"

text \<open>
  A request record: the scancode bytes are given in memory order and padded with zero bytes
  to the 32 bytes of the \<open>scancode\<close> member.
\<close>

definition request :: "8 word \<Rightarrow> 16 word \<Rightarrow> 8 word list \<Rightarrow> 32 word \<Rightarrow> input_keymap_entry" where
  "request flags index bytes keycode =
     \<lparr>ike_flags = flags, ike_len = of_nat (length bytes), ike_index = index,
      ike_keycode = keycode, ike_scancode = bytes @ replicate (32 - length bytes) 0\<rparr>"

text \<open>The scenario's device after its first and after its second \<open>set\<close>.\<close>

definition scenario_step1 :: input_dev where
  "scenario_step1 =
     \<lparr>dev_keycode = Some
        [\<lparr>ke_type = KE_IGNORE, ke_code = 0x1122, ke_keycode = 0\<rparr>,
         \<lparr>ke_type = KE_KEY, ke_code = 0x3344, ke_keycode = 5\<rparr>,
         \<lparr>ke_type = KE_IGNORE, ke_code = 0x5566, ke_keycode = 0\<rparr>,
         \<lparr>ke_type = KE_END, ke_code = 0, ke_keycode = 0\<rparr>],
      dev_keybit = {5}\<rparr>"

definition scenario_step2 :: input_dev where
  "scenario_step2 =
     \<lparr>dev_keycode = Some
        [\<lparr>ke_type = KE_IGNORE, ke_code = 0x1122, ke_keycode = 0\<rparr>,
         \<lparr>ke_type = KE_IGNORE, ke_code = 0x3344, ke_keycode = 0\<rparr>,
         \<lparr>ke_type = KE_IGNORE, ke_code = 0x5566, ke_keycode = 0\<rparr>,
         \<lparr>ke_type = KE_END, ke_code = 0, ke_keycode = 0\<rparr>],
      dev_keybit = {}\<rparr>"

text \<open>
  A table of 65536 entries, one for every index a request can express, and its device.
\<close>

definition full_table :: "key_entry list" where
  "full_table =
     replicate 65536 \<lparr>ke_type = KE_KEY, ke_code = 0x1122, ke_keycode = 5\<rparr> @
     [\<lparr>ke_type = KE_END, ke_code = 0, ke_keycode = 0\<rparr>]"

definition full_dev :: input_dev where
  "full_dev = \<lparr>dev_keycode = Some full_table, dev_keybit = {5}\<rparr>"

text \<open>A table with the same stored code at indices 1 and 2.\<close>

definition duplicate_table :: "key_entry list" where
  "duplicate_table =
     [\<lparr>ke_type = KE_KEY, ke_code = 0x1122, ke_keycode = 5\<rparr>,
      \<lparr>ke_type = KE_KEY, ke_code = 0x3344, ke_keycode = 6\<rparr>,
      \<lparr>ke_type = KE_IGNORE, ke_code = 0x3344, ke_keycode = 0\<rparr>,
      \<lparr>ke_type = KE_END, ke_code = 0, ke_keycode = 0\<rparr>]"

section \<open>Bytes and integers\<close>

lemma bytes_word_word_bytes: "bytes_word (word_bytes w) = w"
  unfolding bytes_word_def word_bytes_def
  apply (simp add: upt_rec)
  apply (rule bit_word_eqI)
  apply (auto simp add: bit_simps)
  subgoal for n by (cases "n < 24") (auto simp: not_less)
  done

lemma word_bytes_bytes_word4: "word_bytes (bytes_word [a, b, c, d]) = [a, b, c, d]"
  unfolding bytes_word_def word_bytes_def
  apply (simp add: upt_rec)
  apply (intro conjI; rule bit_word_eqI; auto simp add: bit_simps dest: bit_imp_le_length)
  done

lemma word_bytes_0: "word_bytes 0 = [0, 0, 0, 0]"
  by (simp add: word_bytes_def upt_rec)

lemma length_word_bytes: "length (word_bytes w) = 4"
  by (simp add: word_bytes_def)

lemma list4: "length bs = 4 \<Longrightarrow> \<exists>a b c d. bs = [a, b, c, d]"
  by (cases bs; simp; cases "tl bs"; simp; cases "tl (tl bs)"; simp; cases "tl (tl (tl bs))"; simp)

lemma word_bytes_bytes_word: "length bs = 4 \<Longrightarrow> word_bytes (bytes_word bs) = bs"
  using list4[of bs] word_bytes_bytes_word4 by auto

lemma stored_code_bytes:
  assumes "n \<le> 4" "n \<le> length src"
  shows "word_bytes (bytes_word (memcpy (word_bytes 0) src n)) = take n src @ replicate (4 - n) 0"
proof -
  have "drop n (word_bytes 0) = replicate (4 - n) 0"
  proof -
    from assms(1) have "n = 0 \<or> n = 1 \<or> n = 2 \<or> n = 3 \<or> n = 4" by arith
    then show ?thesis by (auto simp: word_bytes_0 numeral_eq_Suc)
  qed
  then have m: "memcpy (word_bytes 0) src n = take n src @ replicate (4 - n) 0"
    by (simp add: memcpy_def)
  have "length (take n src @ replicate (4 - n) (0::8 word)) = 4"
    using assms by simp
  then show ?thesis
    unfolding m by (rule word_bytes_bytes_word)
qed

section \<open>Facts about the lookup loops\<close>

lemma keymap_entries_simps [simp]:
  "keymap_entries [] = []"
  "keymap_entries (key # rest) = (if ke_type key = KE_END then [] else key # keymap_entries rest)"
  by (simp_all add: keymap_entries_def)

lemma keymap_entries_not_end: "key \<in> set (keymap_entries tbl) \<Longrightarrow> ke_type key \<noteq> KE_END"
  by (auto simp: keymap_entries_def dest: set_takeWhileD)

lemma keymap_entries_nth: "k < length (keymap_entries tbl) \<Longrightarrow> keymap_entries tbl ! k = tbl ! k"
  by (simp add: keymap_entries_def takeWhile_nth)

lemma keymap_entries_length: "length (keymap_entries tbl) \<le> length tbl"
  by (simp add: keymap_entries_def length_takeWhile_le)

lemma keymap_entries_update:
  "k < length (keymap_entries tbl) \<Longrightarrow> ke_type key \<noteq> KE_END \<Longrightarrow>
   keymap_entries (tbl[k := key]) = (keymap_entries tbl)[k := key]"
proof (induction tbl arbitrary: k)
  case Nil
  then show ?case by simp
next
  case (Cons e tbl)
  then show ?case by (cases k) (auto split: if_splits)
qed

lemma entry_by_index_loop_eq:
  "unat key_cnt \<le> unat index \<Longrightarrow>
   entry_by_index_loop tbl p key_cnt index =
     (if unat index - unat key_cnt < length (keymap_entries tbl)
      then Some (p + (unat index - unat key_cnt)) else None)"
proof (induction tbl arbitrary: p key_cnt)
  case Nil
  then show ?case by simp
next
  case (Cons key rest)
  show ?case
  proof (cases "key_cnt = index")
    case True
    then show ?thesis by simp
  next
    case False
    with Cons.prems have lt: "unat key_cnt < unat index"
      by (simp add: word_unat_eq_iff)
    have "unat index < 2 ^ 32" using unsigned_less[of index, where ?'a = nat] by simp
    with lt have suc: "unat (key_cnt + 1) = Suc (unat key_cnt)"
      by (simp add: unat_word_ariths)
    with lt have le: "unat (key_cnt + 1) \<le> unat index" by simp
    from lt have d: "unat index - unat key_cnt = Suc (unat index - Suc (unat key_cnt))" by simp
    show ?thesis
      using False Cons.IH[OF le] by (simp add: suc d)
  qed
qed

lemma entry_by_index_all_eq:
  "sparse_keymap_entry_by_index_all tbl index =
     (if unat index < length (keymap_entries tbl) then Some (unat index) else None)"
  using entry_by_index_loop_eq[of 0 index tbl 0]
  by (simp add: sparse_keymap_entry_by_index_all_def)

lemma entry_from_scancode_loop_Some:
  "entry_from_scancode_loop tbl p code = Some k \<Longrightarrow>
   p \<le> k \<and> k - p < length (keymap_entries tbl) \<and> ke_code (keymap_entries tbl ! (k - p)) = code \<and>
   (\<forall>j < k - p. ke_code (keymap_entries tbl ! j) \<noteq> code)"
proof (induction tbl arbitrary: p)
  case Nil
  then show ?case by simp
next
  case (Cons key rest)
  show ?case
  proof (cases "ke_type key = KE_END \<or> code = ke_code key")
    case True
    with Cons.prems show ?thesis by (auto split: if_splits)
  next
    case False
    with Cons.prems have r: "entry_from_scancode_loop rest (Suc p) code = Some k" by simp
    from Cons.IH[OF r] have ih: "Suc p \<le> k" "k - Suc p < length (keymap_entries rest)"
      "ke_code (keymap_entries rest ! (k - Suc p)) = code"
      "\<forall>j < k - Suc p. ke_code (keymap_entries rest ! j) \<noteq> code" by auto
    from ih(1) have d: "k - p = Suc (k - Suc p)" by simp
    have "\<forall>j < k - p. ke_code (keymap_entries (key # rest) ! j) \<noteq> code"
    proof (intro allI impI)
      fix j assume "j < k - p"
      then show "ke_code (keymap_entries (key # rest) ! j) \<noteq> code"
        using False ih(4) d by (cases j) auto
    qed
    then show ?thesis using False ih d by simp
  qed
qed

lemma entry_from_scancode_loop_first:
  "j < length (keymap_entries tbl) \<Longrightarrow> ke_code (keymap_entries tbl ! j) = code \<Longrightarrow>
   (\<forall>i < j. ke_code (keymap_entries tbl ! i) \<noteq> code) \<Longrightarrow>
   entry_from_scancode_loop tbl p code = Some (p + j)"
proof (induction tbl arbitrary: p j)
  case Nil
  then show ?case by simp
next
  case (Cons key rest)
  from Cons.prems(1) have ne: "ke_type key \<noteq> KE_END" by (auto split: if_splits)
  show ?case
  proof (cases j)
    case 0
    with Cons.prems ne show ?thesis by simp
  next
    case (Suc j')
    with Cons.prems ne have a: "j' < length (keymap_entries rest)"
      and b: "ke_code (keymap_entries rest ! j') = code" by auto
    from Cons.prems(3) Suc ne have c: "\<forall>i < j'. ke_code (keymap_entries rest ! i) \<noteq> code"
      by (metis Suc_less_eq keymap_entries_simps(2) nth_Cons_Suc)
    from Cons.prems(3) Suc ne have h: "ke_code key \<noteq> code"
      by (metis keymap_entries_simps(2) nth_Cons_0 zero_less_Suc)
    from Cons.IH[OF a b c, of "Suc p"] ne h Suc show ?thesis by auto
  qed
qed

lemma entry_from_scancode_loop_None:
  "entry_from_scancode_loop tbl p code = None \<longleftrightarrow>
   (\<forall>key \<in> set (keymap_entries tbl). ke_code key \<noteq> code)"
  by (induction tbl arbitrary: p) auto

lemma entry_from_keycode_loop_None:
  "entry_from_keycode_loop tbl p keycode = None \<longleftrightarrow>
   \<not> (\<exists>key \<in> set (keymap_entries tbl). ke_type key = KE_KEY \<and> ke_keycode key = keycode)"
  by (induction tbl arbitrary: p) auto

lemma locate_in_table:
  "sparse_keymap_locate_all tbl ke = Some k \<Longrightarrow> k < length (keymap_entries tbl)"
  using entry_from_scancode_loop_Some[of tbl 0 _ k]
  by (auto simp: sparse_keymap_locate_all_def entry_by_index_all_eq
      sparse_keymap_entry_from_scancode_all_def split: if_splits option.splits)

section \<open>What a successful set computes\<close>

lemma setkeycode_located:
  fixes dev :: input_dev and ke :: input_keymap_entry
  defines "n \<equiv> unat (ike_len ke)"
  assumes tbl: "dev_keycode dev = Some tbl"
    and loc: "sparse_keymap_locate_all tbl ke = Some k"
    and len: "unat (ike_len ke) \<le> 4"
  defines "new_type \<equiv>
      (if ike_keycode ke = 0
       then (if ke_type (tbl ! k) = KE_KEY then KE_IGNORE else ke_type (tbl ! k))
       else (if ke_type (tbl ! k) = KE_IGNORE then KE_KEY else ke_type (tbl ! k)))"
  defines "new_key \<equiv> \<lparr>ke_type = new_type,
      ke_code = bytes_word (memcpy (word_bytes 0) (ike_scancode ke) n),
      ke_keycode = ike_keycode ke\<rparr>"
  defines "old \<equiv> ke_keycode (tbl ! k)"
  defines "kb1 \<equiv> (if ke_type (tbl ! k) = KE_KEY
      then (if sparse_keymap_entry_from_keycode (tbl[k := new_key]) old \<noteq> None
            then insert old (dev_keybit dev - {old}) else dev_keybit dev - {old})
      else dev_keybit dev)"
  defines "kb2 \<equiv> (if new_type = KE_KEY
      then (if sparse_keymap_entry_from_keycode (tbl[k := new_key]) old = None
            then insert (ike_keycode ke) kb1 - {old} else insert (ike_keycode ke) kb1)
      else kb1)"
  shows "sparse_keymap_setkeycode_all dev ke =
           (Inr old, \<lparr>dev_keycode = Some (tbl[k := new_key]), dev_keybit = kb2\<rparr>)"
proof -
  obtain t c kc where key: "tbl ! k = \<lparr>ke_type = t, ke_code = c, ke_keycode = kc\<rparr>"
    by (cases "tbl ! k") auto
  have dev: "dev = \<lparr>dev_keycode = Some tbl, dev_keybit = dev_keybit dev\<rparr>"
    using tbl by (cases dev) auto
  show ?thesis
    using len
    apply (subst dev)
    apply (simp add: sparse_keymap_setkeycode_all_def tbl loc Let_def KEY_RESERVED_def
        set_bit_bm_def clear_bit_bm_def key old_def kb2_def kb1_def new_key_def new_type_def n_def)
    done
qed

lemma setkeycode_success:
  assumes "sparse_keymap_setkeycode_all dev ke = (Inr old, dev')"
  shows "\<exists>tbl k. dev_keycode dev = Some tbl \<and> sparse_keymap_locate_all tbl ke = Some k \<and>
           unat (ike_len ke) \<le> 4"
  using assms
  by (auto simp: sparse_keymap_setkeycode_all_def split: option.splits if_splits)

lemma bex_list_update:
  assumes "k < length xs"
  shows "(\<exists>x \<in> set (xs[k := y]). P x) \<longleftrightarrow> P y \<or> (\<exists>j < length xs. j \<noteq> k \<and> P (xs ! j))"
proof
  assume "\<exists>x \<in> set (xs[k := y]). P x"
  then obtain j where j: "j < length xs" "P (xs[k := y] ! j)"
    by (auto simp: in_set_conv_nth)
  then show "P y \<or> (\<exists>j < length xs. j \<noteq> k \<and> P (xs ! j))"
    by (cases "j = k") auto
next
  assume r: "P y \<or> (\<exists>j < length xs. j \<noteq> k \<and> P (xs ! j))"
  then show "\<exists>x \<in> set (xs[k := y]). P x"
  proof
    assume "P y"
    moreover from assms have "y \<in> set (xs[k := y])" by (simp add: set_update_memI)
    ultimately show ?thesis by blast
  next
    assume "\<exists>j < length xs. j \<noteq> k \<and> P (xs ! j)"
    then obtain j where j: "j < length xs" "j \<noteq> k" "P (xs ! j)" by auto
    from j(1) have "xs[k := y] ! j \<in> set (xs[k := y])" by (simp del: nth_list_update)
    moreover from j(2) have "xs[k := y] ! j = xs ! j" by simp
    ultimately show ?thesis using j(3) by auto
  qed
qed

lemma bex_list_split:
  assumes "k < length xs"
  shows "(\<exists>x \<in> set xs. P x) \<longleftrightarrow> P (xs ! k) \<or> (\<exists>j < length xs. j \<noteq> k \<and> P (xs ! j))"
  using bex_list_update[OF assms, of "xs ! k" P] by simp

lemma keybit_update:
  fixes kb :: "32 word set" and found :: "nat option"
  assumes inv: "\<And>c. c \<in> kb \<longleftrightarrow> (old_type = KE_KEY \<and> old = c) \<or> Q c"
    and r: "found \<noteq> None \<longleftrightarrow> (new_type = KE_KEY \<and> new = old) \<or> Q old"
  defines "kb1 \<equiv> (if old_type = KE_KEY
      then (if found \<noteq> None then insert old (kb - {old}) else kb - {old})
      else kb)"
  defines "kb2 \<equiv> (if new_type = KE_KEY
      then (if found = None then insert new kb1 - {old} else insert new kb1)
      else kb1)"
  shows "c \<in> kb2 \<longleftrightarrow> (new_type = KE_KEY \<and> new = c) \<or> Q c"
  unfolding kb2_def kb1_def using inv r by (cases "c = old") auto

lemma locate_in_array: "sparse_keymap_locate_all tbl ke = Some k \<Longrightarrow> k < length tbl"
  using locate_in_table[of tbl ke k] keymap_entries_length[of tbl] by simp

lemma locate_by_scancode_Some:
  assumes "ike_flags ke AND INPUT_KEYMAP_BY_INDEX = 0"
    and "sparse_keymap_locate_all tbl ke = Some k"
  shows "\<forall>g < k. ke_code (keymap_entries tbl ! g) \<noteq> ke_code (keymap_entries tbl ! k)"
proof -
  from assms obtain code where "entry_from_scancode_loop tbl 0 code = Some k"
    by (auto simp: sparse_keymap_locate_all_def sparse_keymap_entry_from_scancode_all_def
        split: option.splits)
  from entry_from_scancode_loop_Some[OF this] show ?thesis by simp
qed

section \<open>Get by index and the enumeration\<close>

lemma unat_index32: "unat (ucast (i :: 16 word) :: 32 word) = unat i"
proof -
  have "unat i < 2 ^ 16" using unsigned_less[of i, where ?'a = nat] by simp
  then have "unat i < 2 ^ 32" by simp
  then show ?thesis
    by (simp add: unsigned_ucast_eq take_bit_nat_eq_self)
qed

lemma getkeycode_by_index:
  assumes "ike_flags ke AND INPUT_KEYMAP_BY_INDEX \<noteq> 0"
  shows "sparse_keymap_getkeycode_all dev ke =
     (if unat (ike_index ke) < table_length dev
      then (Inr (), ke\<lparr>ike_keycode := ke_keycode (table_entries dev ! unat (ike_index ke)),
                       ike_len := 4,
                       ike_scancode := memcpy (ike_scancode ke)
                          (word_bytes (ke_code (table_entries dev ! unat (ike_index ke)))) 4\<rparr>)
      else (Inl EINVAL, ke))"
proof (cases "dev_keycode dev")
  case None
  then show ?thesis
    by (simp add: sparse_keymap_getkeycode_all_def table_length_def table_entries_def)
next
  case (Some tbl)
  have loc: "sparse_keymap_locate_all tbl ke =
      (if unat (ike_index ke) < length (keymap_entries tbl) then Some (unat (ike_index ke)) else None)"
    using assms by (simp add: sparse_keymap_locate_all_def entry_by_index_all_eq unat_index32)
  show ?thesis
    using assms Some loc
    by (simp add: sparse_keymap_getkeycode_all_def table_length_def table_entries_def Let_def
        keymap_entries_nth)
qed

lemma by_index_flag: "INPUT_KEYMAP_BY_INDEX \<noteq> 0"
  by (simp add: INPUT_KEYMAP_BY_INDEX_def)

lemma print_keymap_loop_engine:
  assumes "table_length dev < 0x10000" "i \<le> table_length dev"
  shows "snd (print_keymap_loop (sparse_keymap_getkeycode_all dev) ke i) = Break (table_length dev) \<and>
         map (\<lambda>row. unat (ike_index row)) (fst (print_keymap_loop (sparse_keymap_getkeycode_all dev) ke i))
           = [i ..< table_length dev]"
  using assms
proof (induction "table_length dev - i" arbitrary: i ke)
  case 0
  then have i: "i = table_length dev" by simp
  have u: "unat (word_of_nat (table_length dev) :: 16 word) = table_length dev"
    using 0 by (simp add: unat_of_nat)
  have "sparse_keymap_getkeycode_all dev (ke\<lparr>ike_index := of_nat i, ike_flags := INPUT_KEYMAP_BY_INDEX\<rparr>)
      = (Inl EINVAL, ke\<lparr>ike_index := of_nat i, ike_flags := INPUT_KEYMAP_BY_INDEX\<rparr>)"
    by (subst getkeycode_by_index) (simp_all add: by_index_flag u i)
  then show ?case
    using 0 i by (subst (1 2) print_keymap_loop.simps) simp
next
  case (Suc n)
  then have i: "i < table_length dev" and i16: "i < 0x10000" by simp_all
  have u: "unat (word_of_nat i :: 16 word) = i"
    using i16 by (simp add: unat_of_nat)
  define ke' where "ke' = ke\<lparr>ike_index := of_nat i, ike_flags := INPUT_KEYMAP_BY_INDEX,
      ike_keycode := ke_keycode (table_entries dev ! i), ike_len := 4,
      ike_scancode := memcpy (ike_scancode ke) (word_bytes (ke_code (table_entries dev ! i))) 4\<rparr>"
  have g: "sparse_keymap_getkeycode_all dev (ke\<lparr>ike_index := of_nat i, ike_flags := INPUT_KEYMAP_BY_INDEX\<rparr>)
      = (Inr (), ke')"
    by (subst getkeycode_by_index) (simp_all add: by_index_flag u i ke'_def)
  have n: "n = table_length dev - Suc i" using Suc(2) by simp
  from i have le: "Suc i \<le> table_length dev" by simp
  note ih = Suc(1)[OF n Suc(3) le, of ke']
  have idx: "unat (ike_index ke') = i" "unat (ike_len ke') = 4" by (simp_all add: ke'_def u)
  have step: "print_keymap_loop (sparse_keymap_getkeycode_all dev) ke i =
      (ke' # fst (print_keymap_loop (sparse_keymap_getkeycode_all dev) ke' (Suc i)),
       snd (print_keymap_loop (sparse_keymap_getkeycode_all dev) ke' (Suc i)))"
    using i16 by (subst print_keymap_loop.simps) (simp add: g idx split: prod.splits)
  show ?case
    using ih i by (simp add: step idx upt_conv_Cons)
qed

lemma print_keymap_loop_full:
  assumes "0x10000 \<le> table_length dev" "i \<le> 0x10000"
  shows "snd (print_keymap_loop (sparse_keymap_getkeycode_all dev) ke i) = Loop_condition \<and>
         map (\<lambda>row. unat (ike_index row)) (fst (print_keymap_loop (sparse_keymap_getkeycode_all dev) ke i))
           = [i ..< 0x10000]"
  using assms
proof (induction "0x10000 - i" arbitrary: i ke)
  case 0
  then have i: "i = 0x10000" by simp
  show ?case
    unfolding i by (subst (1 2) print_keymap_loop.simps) simp
next
  case (Suc n)
  then have i16: "i < 0x10000" by simp
  with Suc(3) have i: "i < table_length dev" by simp
  have u: "unat (word_of_nat i :: 16 word) = i"
    using i16 by (simp add: unat_of_nat)
  define ke' where "ke' = ke\<lparr>ike_index := of_nat i, ike_flags := INPUT_KEYMAP_BY_INDEX,
      ike_keycode := ke_keycode (table_entries dev ! i), ike_len := 4,
      ike_scancode := memcpy (ike_scancode ke) (word_bytes (ke_code (table_entries dev ! i))) 4\<rparr>"
  have g: "sparse_keymap_getkeycode_all dev (ke\<lparr>ike_index := of_nat i, ike_flags := INPUT_KEYMAP_BY_INDEX\<rparr>)
      = (Inr (), ke')"
    by (subst getkeycode_by_index) (simp_all add: by_index_flag u i ke'_def)
  have n: "n = 0x10000 - Suc i" using Suc(2) by simp
  from i16 have le: "Suc i \<le> 0x10000" by simp
  note ih = Suc(1)[OF n Suc(3) le, of ke']
  have idx: "unat (ike_index ke') = i" "unat (ike_len ke') = 4" by (simp_all add: ke'_def u)
  have step: "print_keymap_loop (sparse_keymap_getkeycode_all dev) ke i =
      (ke' # fst (print_keymap_loop (sparse_keymap_getkeycode_all dev) ke' (Suc i)),
       snd (print_keymap_loop (sparse_keymap_getkeycode_all dev) ke' (Suc i)))"
    using i16 by (subst print_keymap_loop.simps) (simp add: g idx split: prod.splits)
  show ?case
    using ih i16 by (simp add: step idx upt_conv_Cons)
qed

lemma table_length_full_dev: "table_length full_dev = 65536"
proof -
  have "keymap_entries full_table =
      replicate 65536 \<lparr>ke_type = KE_KEY, ke_code = 0x1122, ke_keycode = 5\<rparr> @
      takeWhile (\<lambda>key. ke_type key \<noteq> KE_END) [\<lparr>ke_type = KE_END, ke_code = 0, ke_keycode = 0\<rparr>]"
    unfolding keymap_entries_def full_table_def
    by (rule takeWhile_append2) (simp split: if_splits)
  then show ?thesis
    by (simp add: table_length_def table_entries_def full_dev_def)
qed

lemmas scenario_eval = scenario_dev_def scenario_table_def request_def sparse_keymap_locate_all_def
  INPUT_KEYMAP_BY_INDEX_def sparse_keymap_entry_by_index_all_def
  sparse_keymap_entry_from_scancode_all_def input_scancode_to_scalar_def
  sparse_keymap_entry_from_keycode_def sparse_keymap_setkeycode_all_def Let_def KEY_RESERVED_def
  word_bytes_def bytes_word_def memcpy_def set_bit_bm_def clear_bit_bm_def upt_rec

section \<open>The active-keycode set\<close>

text \<open>
  C1. If the active-set invariant holds for a device and a \<open>set\<close> on it returns success,
  the invariant holds for the device afterwards: a bit of \<open>dev->keybit\<close> is set if and only
  if some entry of the table has type \<open>KE_KEY\<close> and that keycode. In particular, for the old
  keycode of the mutated entry: when another entry of type \<open>KE_KEY\<close> still has it, its bit is
  set afterwards, and when no entry of type \<open>KE_KEY\<close> has it any more, its bit is clear.
\<close>

theorem set_preserves_active_set_invariant:
  assumes inv: "active_set_invariant dev"
    and succ: "sparse_keymap_setkeycode_all dev ke = (Inr old_keycode, dev')"
  shows "active_set_invariant dev' \<and>
    (\<exists>tbl k. dev_keycode dev = Some tbl \<and> sparse_keymap_locate_all tbl ke = Some k \<and>
       old_keycode = ke_keycode (tbl ! k) \<and>
       ((\<exists>j < table_length dev'. j \<noteq> k \<and> ke_type (table_entries dev' ! j) = KE_KEY \<and>
            ke_keycode (table_entries dev' ! j) = old_keycode)
          \<longrightarrow> old_keycode \<in> dev_keybit dev') \<and>
       ((\<forall>j < table_length dev'. \<not> (ke_type (table_entries dev' ! j) = KE_KEY \<and>
            ke_keycode (table_entries dev' ! j) = old_keycode))
          \<longrightarrow> old_keycode \<notin> dev_keybit dev'))"
proof -
  from setkeycode_success[OF succ] obtain tbl k where tbl: "dev_keycode dev = Some tbl"
    and loc: "sparse_keymap_locate_all tbl ke = Some k" and len: "unat (ike_len ke) \<le> 4"
    by blast
  define es where "es = keymap_entries tbl"
  have k: "k < length es" unfolding es_def by (rule locate_in_table[OF loc])
  have esk: "es ! k = tbl ! k" using k unfolding es_def by (rule keymap_entries_nth)
  have "es ! k \<in> set es" using k by simp
  then have old_ne: "ke_type (tbl ! k) \<noteq> KE_END"
    using keymap_entries_not_end[of "es ! k" tbl] esk by (simp add: es_def)
  define new_type where "new_type =
      (if ike_keycode ke = 0
       then (if ke_type (tbl ! k) = KE_KEY then KE_IGNORE else ke_type (tbl ! k))
       else (if ke_type (tbl ! k) = KE_IGNORE then KE_KEY else ke_type (tbl ! k)))"
  define new_key where "new_key = \<lparr>ke_type = new_type,
      ke_code = bytes_word (memcpy (word_bytes 0) (ike_scancode ke) (unat (ike_len ke))),
      ke_keycode = ike_keycode ke\<rparr>"
  define old where "old = ke_keycode (tbl ! k)"
  define found where "found = sparse_keymap_entry_from_keycode (tbl[k := new_key]) old"
  define kb1 where "kb1 = (if ke_type (tbl ! k) = KE_KEY
      then (if found \<noteq> None then insert old (dev_keybit dev - {old}) else dev_keybit dev - {old})
      else dev_keybit dev)"
  define kb2 where "kb2 = (if new_type = KE_KEY
      then (if found = None then insert (ike_keycode ke) kb1 - {old} else insert (ike_keycode ke) kb1)
      else kb1)"
  have "sparse_keymap_setkeycode_all dev ke =
          (Inr old, \<lparr>dev_keycode = Some (tbl[k := new_key]), dev_keybit = kb2\<rparr>)"
    unfolding kb2_def kb1_def found_def old_def new_key_def new_type_def
    by (rule setkeycode_located[OF tbl loc len])
  with succ have old: "old_keycode = old"
    and dev': "dev' = \<lparr>dev_keycode = Some (tbl[k := new_key]), dev_keybit = kb2\<rparr>"
    by simp_all
  have new_ne: "ke_type new_key \<noteq> KE_END"
    using old_ne by (simp add: new_key_def new_type_def)
  have es': "table_entries dev' = es[k := new_key]"
    using keymap_entries_update[OF k[unfolded es_def] new_ne]
    by (simp add: dev' table_entries_def es_def)
  define Q where "Q c \<longleftrightarrow> (\<exists>j < length es. j \<noteq> k \<and> ke_type (es ! j) = KE_KEY \<and> ke_keycode (es ! j) = c)"
    for c
  have before: "c \<in> dev_keybit dev \<longleftrightarrow> (ke_type (tbl ! k) = KE_KEY \<and> old = c) \<or> Q c" for c
  proof -
    have "c \<in> dev_keybit dev \<longleftrightarrow> (\<exists>key \<in> set es. ke_type key = KE_KEY \<and> ke_keycode key = c)"
      using inv by (simp add: active_set_invariant_def table_entries_def tbl es_def)
    also have "\<dots> \<longleftrightarrow> (ke_type (es ! k) = KE_KEY \<and> ke_keycode (es ! k) = c) \<or> Q c"
      unfolding Q_def by (rule bex_list_split[OF k])
    finally show ?thesis by (simp add: esk old_def)
  qed
  have refs: "(\<exists>key \<in> set (es[k := new_key]). ke_type key = KE_KEY \<and> ke_keycode key = c)
      \<longleftrightarrow> (new_type = KE_KEY \<and> ike_keycode ke = c) \<or> Q c" for c
    unfolding Q_def
    using bex_list_update[OF k, of new_key "\<lambda>key. ke_type key = KE_KEY \<and> ke_keycode key = c"]
    by (simp add: new_key_def)
  have found: "found \<noteq> None \<longleftrightarrow> (new_type = KE_KEY \<and> ike_keycode ke = old) \<or> Q old"
    using entry_from_keycode_loop_None[of "tbl[k := new_key]" 0 old] refs[of old]
      keymap_entries_update[OF k[unfolded es_def] new_ne]
    by (simp add: found_def sparse_keymap_entry_from_keycode_def es_def)
  have after: "c \<in> kb2 \<longleftrightarrow> (new_type = KE_KEY \<and> ike_keycode ke = c) \<or> Q c" for c
    unfolding kb2_def kb1_def by (rule keybit_update[OF before found])
  have inv': "c \<in> dev_keybit dev' \<longleftrightarrow>
      (\<exists>key \<in> set (table_entries dev'). ke_type key = KE_KEY \<and> ke_keycode key = c)" for c
  proof -
    have "dev_keybit dev' = kb2" by (simp add: dev')
    then show ?thesis using after[of c] refs[of c] by (simp add: es')
  qed
  then have 1: "active_set_invariant dev'"
    by (simp add: active_set_invariant_def)
  have len': "table_length dev' = length es" by (simp add: table_length_def es')
  have 2: "(\<exists>j < table_length dev'. j \<noteq> k \<and> ke_type (table_entries dev' ! j) = KE_KEY \<and>
            ke_keycode (table_entries dev' ! j) = old_keycode) \<longrightarrow> old_keycode \<in> dev_keybit dev'"
    using inv'[of old_keycode] by (auto simp: table_length_def)
  have 3: "(\<forall>j < table_length dev'. \<not> (ke_type (table_entries dev' ! j) = KE_KEY \<and>
            ke_keycode (table_entries dev' ! j) = old_keycode)) \<longrightarrow> old_keycode \<notin> dev_keybit dev'"
    using inv'[of old_keycode] by (auto simp: table_length_def in_set_conv_nth)
  from 1 2 3 tbl loc old show ?thesis by (auto simp: old_def)
qed

theorem set_preserves_active_set_invariant_witness:
  "active_set_invariant scenario_dev \<and>
   sparse_keymap_setkeycode_all scenario_dev (request 1 0 [0x22, 0x11] 0) = (Inr 5, scenario_step1) \<and>
   active_set_invariant scenario_step1 \<and> 5 \<in> dev_keybit scenario_step1 \<and>
   sparse_keymap_setkeycode_all scenario_step1 (request 1 1 [0x44, 0x33] 0) = (Inr 5, scenario_step2) \<and>
   active_set_invariant scenario_step2 \<and> 5 \<notin> dev_keybit scenario_step2"
proof -
  have i: "active_set_invariant scenario_dev"
    by (auto simp: active_set_invariant_def table_entries_def keymap_entries_def
        scenario_dev_def scenario_table_def)
  have s1: "sparse_keymap_setkeycode_all scenario_dev (request 1 0 [0x22, 0x11] 0) = (Inr 5, scenario_step1)"
    by (simp add: scenario_eval scenario_step1_def)
  have s2: "sparse_keymap_setkeycode_all scenario_step1 (request 1 1 [0x44, 0x33] 0) = (Inr 5, scenario_step2)"
    by (simp add: scenario_eval scenario_step1_def scenario_step2_def)
  from set_preserves_active_set_invariant[OF i s1] have i1: "active_set_invariant scenario_step1"
    by (rule conjunct1)
  from set_preserves_active_set_invariant[OF i1 s2] have i2: "active_set_invariant scenario_step2"
    by (rule conjunct1)
  show ?thesis using i s1 i1 s2 i2 by (simp add: scenario_step1_def scenario_step2_def)
qed

section \<open>The type of the mutated entry\<close>

text \<open>
  C2, as the specification words it, promotes an entry of type \<open>KE_IGNORE\<close> to \<open>KE_KEY\<close> also
  when the new keycode is 0. The module does not: on the scenario's table, a \<open>set\<close> of
  keycode 0 on entry 2 (type \<open>KE_IGNORE\<close>) succeeds and leaves the entry of type
  \<open>KE_IGNORE\<close>.
\<close>

theorem set_type_transition_counterexample:
  "ke_type (table_entries scenario_dev ! 2) = KE_IGNORE \<and>
   ike_keycode (request 1 2 [0x66, 0x55] 0) = 0 \<and>
   fst (sparse_keymap_setkeycode_all scenario_dev (request 1 2 [0x66, 0x55] 0)) = Inr 0 \<and>
   ke_type (table_entries (snd (sparse_keymap_setkeycode_all scenario_dev (request 1 2 [0x66, 0x55] 0))) ! 2)
     = KE_IGNORE \<and>
   ke_type (table_entries (snd (sparse_keymap_setkeycode_all scenario_dev (request 1 2 [0x66, 0x55] 0))) ! 2)
     \<noteq> KE_KEY"
  by (simp add: scenario_eval table_entries_def)

text \<open>
  C2, amended. For every \<open>set\<close> that locates an entry and passes the length check, the type
  of the entry afterwards is: when the new keycode is 0 (\<open>KEY_RESERVED\<close>), \<open>KE_IGNORE\<close> if
  the old type is \<open>KE_KEY\<close> and the old type otherwise (so \<open>KE_IGNORE\<close> stays
  \<open>KE_IGNORE\<close>); when the new keycode is not 0, \<open>KE_KEY\<close> if the old type is
  \<open>KE_IGNORE\<close> and the old type otherwise.
\<close>

theorem set_type_transition:
  assumes "dev_keycode dev = Some tbl"
    and "sparse_keymap_locate_all tbl ke = Some k"
    and "unat (ike_len ke) \<le> 4"
  shows "\<exists>tbl'. dev_keycode (snd (sparse_keymap_setkeycode_all dev ke)) = Some tbl' \<and>
     ke_type (tbl' ! k) =
       (if ike_keycode ke = KEY_RESERVED
        then (if ke_type (tbl ! k) = KE_KEY then KE_IGNORE else ke_type (tbl ! k))
        else (if ke_type (tbl ! k) = KE_IGNORE then KE_KEY else ke_type (tbl ! k)))"
  using locate_in_array[OF assms(2)]
  by (simp add: setkeycode_located[OF assms] KEY_RESERVED_def)

theorem set_type_transition_witness:
  "(\<exists>tbl'. dev_keycode (snd (sparse_keymap_setkeycode_all scenario_dev (request 1 0 [0x22, 0x11] 0)))
       = Some tbl' \<and> ke_type (tbl' ! 0) = KE_IGNORE) \<and>
   (\<exists>tbl'. dev_keycode (snd (sparse_keymap_setkeycode_all scenario_dev (request 1 2 [0x66, 0x55] 7)))
       = Some tbl' \<and> ke_type (tbl' ! 2) = KE_KEY)"
proof -
  have t: "dev_keycode scenario_dev = Some scenario_table" by (simp add: scenario_dev_def)
  have l0: "sparse_keymap_locate_all scenario_table (request 1 0 [0x22, 0x11] 0) = Some 0"
    by (simp add: scenario_eval)
  have l2: "sparse_keymap_locate_all scenario_table (request 1 2 [0x66, 0x55] 7) = Some 2"
    by (simp add: scenario_eval)
  have n0: "unat (ike_len (request 1 0 [0x22, 0x11] 0)) \<le> 4" by (simp add: request_def)
  have n2: "unat (ike_len (request 1 2 [0x66, 0x55] 7)) \<le> 4" by (simp add: request_def)
  from set_type_transition[OF t l0 n0] set_type_transition[OF t l2 n2]
  show ?thesis by (simp add: scenario_table_def request_def KEY_RESERVED_def)
qed

section \<open>The length check of set\<close>

text \<open>
  C3, as the specification words it, lets every located request of at most 32 bytes through.
  The module does not: a request of 5 bytes that locates entry 0 of the scenario's table is
  refused with \<open>EINVAL\<close>, and the device is left as it was.
\<close>

theorem set_length_check_counterexample:
  "unat (ike_len (request 1 0 [1, 2, 3, 4, 5] 7)) \<le> 32 \<and>
   sparse_keymap_locate_all scenario_table (request 1 0 [1, 2, 3, 4, 5] 7) = Some 0 \<and>
   sparse_keymap_setkeycode_all scenario_dev (request 1 0 [1, 2, 3, 4, 5] 7) = (Inl EINVAL, scenario_dev)"
  by (simp add: scenario_eval)

text \<open>
  C3, amended. A \<open>set\<close> on a located entry returns the error \<open>EINVAL\<close> exactly when the
  length of the new scancode exceeds 4 bytes, the size of the entry's stored code: every
  located request longer than 4 bytes is refused and leaves the device unchanged, and every
  located request of at most 4 bytes succeeds, returns the entry's old keycode and stores the
  new keycode and scancode in the entry.
\<close>

theorem set_length_check:
  assumes "dev_keycode dev = Some tbl"
    and "sparse_keymap_locate_all tbl ke = Some k"
  shows "(fst (sparse_keymap_setkeycode_all dev ke) = Inl EINVAL \<longleftrightarrow> 4 < unat (ike_len ke)) \<and>
     (4 < unat (ike_len ke) \<longrightarrow> sparse_keymap_setkeycode_all dev ke = (Inl EINVAL, dev)) \<and>
     (unat (ike_len ke) \<le> 4 \<longrightarrow>
        (\<exists>tbl'. fst (sparse_keymap_setkeycode_all dev ke) = Inr (ke_keycode (tbl ! k)) \<and>
           dev_keycode (snd (sparse_keymap_setkeycode_all dev ke)) = Some tbl' \<and>
           ke_keycode (tbl' ! k) = ike_keycode ke \<and>
           ke_code (tbl' ! k) =
             bytes_word (memcpy (word_bytes 0) (ike_scancode ke) (unat (ike_len ke)))))"
proof (cases "unat (ike_len ke) \<le> 4")
  case True
  then show ?thesis
    using locate_in_array[OF assms(2)]
    by (simp add: setkeycode_located[OF assms True])
next
  case False
  then show ?thesis
    using assms by (simp add: sparse_keymap_setkeycode_all_def)
qed

theorem set_length_check_witness:
  "sparse_keymap_setkeycode_all scenario_dev (request 1 0 [1, 2, 3, 4, 5] 7) = (Inl EINVAL, scenario_dev) \<and>
   (\<exists>tbl'. fst (sparse_keymap_setkeycode_all scenario_dev (request 1 0 [1, 2, 3, 4] 7)) = Inr 5 \<and>
      dev_keycode (snd (sparse_keymap_setkeycode_all scenario_dev (request 1 0 [1, 2, 3, 4] 7))) = Some tbl' \<and>
      ke_keycode (tbl' ! 0) = 7 \<and> ke_code (tbl' ! 0) = 0x04030201)"
proof -
  have t: "dev_keycode scenario_dev = Some scenario_table" by (simp add: scenario_dev_def)
  have l5: "sparse_keymap_locate_all scenario_table (request 1 0 [1, 2, 3, 4, 5] 7) = Some 0"
    by (simp add: scenario_eval)
  have l4: "sparse_keymap_locate_all scenario_table (request 1 0 [1, 2, 3, 4] 7) = Some 0"
    by (simp add: scenario_eval)
  from set_length_check[OF t l5] set_length_check[OF t l4]
  show ?thesis
    by (simp add: scenario_table_def request_def word_bytes_def bytes_word_def memcpy_def upt_rec)
qed

section \<open>Failure leaves the device alone\<close>

text \<open>
  C4. Whenever \<open>set\<close> returns an error, the device is as it was before the call: the table
  and the active-keycode set are unchanged. The error is \<open>EINVAL\<close>, and it is returned
  because there is no table, because the locator resolves to no entry, or because the new
  scancode is longer than the stored code.
\<close>

theorem set_error_leaves_device_unchanged:
  assumes "sparse_keymap_setkeycode_all dev ke = (Inl e, dev')"
  shows "dev' = dev \<and> dev_keycode dev' = dev_keycode dev \<and> dev_keybit dev' = dev_keybit dev \<and>
     e = EINVAL \<and>
     (dev_keycode dev = None \<or>
      (\<exists>tbl. dev_keycode dev = Some tbl \<and>
         (sparse_keymap_locate_all tbl ke = None \<or> 4 < unat (ike_len ke))))"
  using assms
  by (auto simp: sparse_keymap_setkeycode_all_def Let_def split: option.splits if_splits)

theorem set_error_leaves_device_unchanged_witness:
  "sparse_keymap_setkeycode_all scenario_dev (request 1 3 [0x22, 0x11] 7) = (Inl EINVAL, scenario_dev) \<and>
   sparse_keymap_setkeycode_all scenario_dev (request 0 0 [0x77, 0x77] 7) = (Inl EINVAL, scenario_dev) \<and>
   sparse_keymap_setkeycode_all scenario_dev (request 1 0 [1, 2, 3, 4, 5] 7) = (Inl EINVAL, scenario_dev)"
proof -
  obtain d1 where a: "sparse_keymap_setkeycode_all scenario_dev (request 1 3 [0x22, 0x11] 7) = (Inl EINVAL, d1)"
    by (simp add: scenario_eval)
  obtain d2 where b: "sparse_keymap_setkeycode_all scenario_dev (request 0 0 [0x77, 0x77] 7) = (Inl EINVAL, d2)"
    by (simp add: scenario_eval)
  obtain d3 where c: "sparse_keymap_setkeycode_all scenario_dev (request 1 0 [1, 2, 3, 4, 5] 7) = (Inl EINVAL, d3)"
    by (simp add: scenario_eval)
  from set_error_leaves_device_unchanged[OF a] set_error_leaves_device_unchanged[OF b]
    set_error_leaves_device_unchanged[OF c] a b c
  show ?thesis by simp
qed

section \<open>Lookup by scancode\<close>

text \<open>
  C5, as the specification words it, never matches a locator with an entry of another
  scancode length. The module does: every entry stores a 4-byte code (a \<open>get\<close> reports
  length 4 for entry 0 of the scenario's table), and a locator of 2 bytes with the same
  value locates that entry.
\<close>

theorem locate_by_scancode_length_counterexample:
  "ike_flags (request 0 0 [0x22, 0x11] 0) AND INPUT_KEYMAP_BY_INDEX = 0 \<and>
   ike_len (request 0 0 [0x22, 0x11] 0) = 2 \<and>
   ike_len (snd (sparse_keymap_getkeycode_all scenario_dev (request 1 0 [] 0))) = 4 \<and>
   ke_code (scenario_table ! 0) = 0x1122 \<and>
   sparse_keymap_locate_all scenario_table (request 0 0 [0x22, 0x11] 0) = Some 0"
  by (simp add: sparse_keymap_getkeycode_all_def scenario_eval)

text \<open>
  C5, amended. A locate by scancode compares integer values, not lengths: the locator
  resolves to an entry if and only if its length is 1, 2 or 4 bytes, the entry is in the
  table, the entry's stored 4-byte code equals the locator's bytes read as an integer of
  that length, and no earlier entry has that code. A locator of any other length resolves to
  no entry.
\<close>

theorem locate_by_scancode_compares_values:
  assumes "ike_flags ke AND INPUT_KEYMAP_BY_INDEX = 0"
  shows "sparse_keymap_locate_all tbl ke = Some k \<longleftrightarrow>
     (ike_len ke = 1 \<or> ike_len ke = 2 \<or> ike_len ke = 4) \<and>
     k < length (keymap_entries tbl) \<and>
     ke_code (keymap_entries tbl ! k) = bytes_word (take (unat (ike_len ke)) (ike_scancode ke)) \<and>
     (\<forall>j < k. ke_code (keymap_entries tbl ! j) \<noteq>
        bytes_word (take (unat (ike_len ke)) (ike_scancode ke)))"
proof (cases "input_scancode_to_scalar ke")
  case None
  then have "\<not> (ike_len ke = 1 \<or> ike_len ke = 2 \<or> ike_len ke = 4)"
    by (auto simp: input_scancode_to_scalar_def split: if_splits)
  with None assms show ?thesis by (simp add: sparse_keymap_locate_all_def)
next
  case (Some code)
  then have len: "ike_len ke = 1 \<or> ike_len ke = 2 \<or> ike_len ke = 4"
    and code: "code = bytes_word (take (unat (ike_len ke)) (ike_scancode ke))"
    by (auto simp: input_scancode_to_scalar_def split: if_splits)
  have loc: "sparse_keymap_locate_all tbl ke = entry_from_scancode_loop tbl 0 code"
    using assms Some
    by (simp add: sparse_keymap_locate_all_def sparse_keymap_entry_from_scancode_all_def)
  show ?thesis
    unfolding loc code[symmetric]
    using entry_from_scancode_loop_Some[of tbl 0 code k]
      entry_from_scancode_loop_first[of k tbl code 0] len
    by auto
qed

theorem locate_by_scancode_compares_values_witness:
  "sparse_keymap_locate_all scenario_table (request 0 0 [0x44, 0x33] 0) = Some 1 \<and>
   sparse_keymap_locate_all scenario_table (request 0 0 [0x44, 0x33, 0, 0] 0) = Some 1 \<and>
   sparse_keymap_locate_all scenario_table (request 0 0 [0x44, 0x33, 0] 0) \<noteq> Some 1"
proof -
  have f: "ike_flags (request 0 0 bs 0) AND INPUT_KEYMAP_BY_INDEX = 0" for bs
    by (simp add: request_def)
  show ?thesis
    unfolding locate_by_scancode_compares_values[OF f]
    by (simp add: request_def scenario_table_def bytes_word_def keymap_entries_def less_Suc_eq)
qed

text \<open>
  C6. The lookup by scancode scans the table in index order and returns the first entry with
  the code. For a table with the same code at indices \<open>i < j\<close>, a lookup by scancode for
  that code resolves to the first index with the code, which is at most \<open>i\<close> and is \<open>i\<close>
  itself when no entry before \<open>i\<close> has the code; and no lookup by scancode, whatever the
  request, resolves to \<open>j\<close>.
\<close>

theorem scancode_lookup_first_match:
  assumes "ike_flags ke AND INPUT_KEYMAP_BY_INDEX = 0"
    and "input_scancode_to_scalar ke = Some code"
    and "i < j" and "j < length (keymap_entries tbl)"
    and "ke_code (keymap_entries tbl ! i) = code"
    and "ke_code (keymap_entries tbl ! j) = code"
  shows "sparse_keymap_locate_all tbl ke = sparse_keymap_entry_from_scancode_all tbl code \<and>
     (\<exists>h \<le> i. sparse_keymap_entry_from_scancode_all tbl code = Some h \<and>
        ke_code (keymap_entries tbl ! h) = code \<and>
        (\<forall>g < h. ke_code (keymap_entries tbl ! g) \<noteq> code)) \<and>
     ((\<forall>g < i. ke_code (keymap_entries tbl ! g) \<noteq> code) \<longrightarrow>
        sparse_keymap_locate_all tbl ke = Some i) \<and>
     (\<forall>ke'. ike_flags ke' AND INPUT_KEYMAP_BY_INDEX = 0 \<longrightarrow>
        sparse_keymap_locate_all tbl ke' \<noteq> Some j)"
proof -
  have loc: "sparse_keymap_locate_all tbl ke = sparse_keymap_entry_from_scancode_all tbl code"
    using assms(1,2) by (simp add: sparse_keymap_locate_all_def)
  from assms(3,4) have i: "i < length (keymap_entries tbl)" by simp
  then have "keymap_entries tbl ! i \<in> set (keymap_entries tbl)" by simp
  with assms(5) have "entry_from_scancode_loop tbl 0 code \<noteq> None"
    unfolding entry_from_scancode_loop_None by blast
  then obtain h where h: "entry_from_scancode_loop tbl 0 code = Some h" by blast
  note hs = entry_from_scancode_loop_Some[OF h]
  from hs have first: "\<forall>g < h. ke_code (keymap_entries tbl ! g) \<noteq> code" by simp
  have hi: "h \<le> i"
  proof (rule ccontr)
    assume "\<not> h \<le> i"
    then have "i < h" by simp
    with first assms(5) show False by blast
  qed
  have only: "(\<forall>g < i. ke_code (keymap_entries tbl ! g) \<noteq> code) \<longrightarrow> h = i"
    using hs hi by (auto simp: le_less)
  have unreachable: "sparse_keymap_locate_all tbl ke' \<noteq> Some j"
    if "ike_flags ke' AND INPUT_KEYMAP_BY_INDEX = 0" for ke'
  proof
    assume "sparse_keymap_locate_all tbl ke' = Some j"
    from locate_by_scancode_Some[OF that this] assms(3)
    have "ke_code (keymap_entries tbl ! i) \<noteq> ke_code (keymap_entries tbl ! j)" by blast
    with assms(5,6) show False by simp
  qed
  from hs hi first only loc h unreachable show ?thesis
    by (auto simp: sparse_keymap_entry_from_scancode_all_def)
qed

theorem scancode_lookup_first_match_witness:
  "sparse_keymap_locate_all duplicate_table (request 0 0 [0x44, 0x33] 0) = Some 1 \<and>
   sparse_keymap_entry_from_scancode_all duplicate_table 0x3344 = Some 1 \<and>
   sparse_keymap_locate_all duplicate_table (request 0 0 [0x44, 0x33, 0, 0] 0) \<noteq> Some 2"
proof -
  have f: "ike_flags (request 0 0 bs 0) AND INPUT_KEYMAP_BY_INDEX = 0" for bs
    by (simp add: request_def)
  have s: "input_scancode_to_scalar (request 0 0 [0x44, 0x33] 0) = Some 0x3344"
    by (simp add: input_scancode_to_scalar_def request_def bytes_word_def)
  have es: "keymap_entries duplicate_table = butlast duplicate_table"
    by (simp add: duplicate_table_def)
  have j: "2 < length (keymap_entries duplicate_table)"
    by (simp add: es) (simp add: duplicate_table_def)
  have ci: "ke_code (keymap_entries duplicate_table ! 1) = 0x3344"
    by (simp add: es) (simp add: duplicate_table_def)
  have cj: "ke_code (keymap_entries duplicate_table ! 2) = 0x3344"
    by (simp add: es) (simp add: duplicate_table_def)
  have first: "\<forall>g < 1. ke_code (keymap_entries duplicate_table ! g) \<noteq> 0x3344"
    by (simp add: es) (simp add: duplicate_table_def)
  have lt: "(1::nat) < 2" by simp
  note r = scancode_lookup_first_match[OF f s lt j ci cj]
  from r have a: "sparse_keymap_locate_all duplicate_table (request 0 0 [0x44, 0x33] 0) =
      sparse_keymap_entry_from_scancode_all duplicate_table 0x3344"
    by (rule conjunct1)
  from r first have b: "sparse_keymap_locate_all duplicate_table (request 0 0 [0x44, 0x33] 0) = Some 1"
    by blast
  from r have c: "\<forall>ke'. ike_flags ke' AND INPUT_KEYMAP_BY_INDEX = 0 \<longrightarrow>
        sparse_keymap_locate_all duplicate_table ke' \<noteq> Some 2"
    by blast
  from c f have "sparse_keymap_locate_all duplicate_table (request 0 0 [0x44, 0x33, 0, 0] 0) \<noteq> Some 2"
    by blast
  with a b show ?thesis by simp
qed

section \<open>Lookup by index and the enumeration\<close>

text \<open>
  C7, as the specification words it, has the dump of the client receive the not-found error
  at index \<open>N\<close> for every table of length \<open>N\<close>. For a table of 65536 entries it does not:
  the index of a request has 16 bits and the loop of \<open>print_keymap\<close> runs while
  \<open>i < 0x10000\<close>, so every one of the 65536 calls succeeds and the loop ends by its
  condition, without a \<open>break\<close> at index 65536.
\<close>

theorem enumeration_full_table_counterexample:
  "table_length full_dev = 65536 \<and>
   snd (print_keymap_loop (sparse_keymap_getkeycode_all full_dev) (request 1 0 [] 0) 0)
     = Loop_condition \<and>
   snd (print_keymap_loop (sparse_keymap_getkeycode_all full_dev) (request 1 0 [] 0) 0)
     \<noteq> Break 65536 \<and>
   length (fst (print_keymap_loop (sparse_keymap_getkeycode_all full_dev) (request 1 0 [] 0) 0))
     = 65536"
proof -
  have n: "0x10000 \<le> table_length full_dev" by (simp add: table_length_full_dev)
  from print_keymap_loop_full[OF n, of 0 "request 1 0 [] 0"]
  have e: "snd (print_keymap_loop (sparse_keymap_getkeycode_all full_dev) (request 1 0 [] 0) 0)
      = Loop_condition"
    and r: "map (\<lambda>row. unat (ike_index row))
      (fst (print_keymap_loop (sparse_keymap_getkeycode_all full_dev) (request 1 0 [] 0) 0))
        = [0 ..< 0x10000]"
    by simp_all
  from r have "length (map (\<lambda>row. unat (ike_index row))
      (fst (print_keymap_loop (sparse_keymap_getkeycode_all full_dev) (request 1 0 [] 0) 0)))
        = length [0 ..< (0x10000::nat)]"
    by (rule arg_cong)
  then have l: "length (fst (print_keymap_loop (sparse_keymap_getkeycode_all full_dev) (request 1 0 [] 0) 0))
      = 65536"
    by (simp del: upt_rec_numeral)
  from e l show ?thesis by (simp add: table_length_full_dev)
qed

text \<open>
  C7, amended. For a table of length \<open>N\<close>, a \<open>get\<close> by index succeeds exactly for the
  indices below \<open>N\<close>, and fails with \<open>EINVAL\<close> (the not-found code, the only error there
  is) exactly for the others. So, when \<open>N\<close> is below 65536, the dump of the client, asking
  for the indices 0, 1, 2, ... in turn, receives the error at index \<open>N\<close> and at no earlier
  index: it leaves its loop through \<open>break\<close> at \<open>N\<close>, after one row for each index below
  \<open>N\<close>. When \<open>N\<close> is 65536 or more, it receives no error: the loop ends by its condition
  after the rows of the indices 0 to 65535.
\<close>

theorem get_by_index_range:
  assumes "ike_flags ke AND INPUT_KEYMAP_BY_INDEX \<noteq> 0"
  shows "(fst (sparse_keymap_getkeycode_all dev ke) = Inr () \<longleftrightarrow>
            unat (ike_index ke) < table_length dev) \<and>
         (fst (sparse_keymap_getkeycode_all dev ke) = Inl EINVAL \<longleftrightarrow>
            table_length dev \<le> unat (ike_index ke)) \<and>
         (table_length dev < 0x10000 \<longrightarrow>
            snd (print_keymap_loop (sparse_keymap_getkeycode_all dev) ke 0) = Break (table_length dev) \<and>
            map (\<lambda>row. unat (ike_index row))
                (fst (print_keymap_loop (sparse_keymap_getkeycode_all dev) ke 0))
              = [0 ..< table_length dev]) \<and>
         (0x10000 \<le> table_length dev \<longrightarrow>
            snd (print_keymap_loop (sparse_keymap_getkeycode_all dev) ke 0) = Loop_condition \<and>
            map (\<lambda>row. unat (ike_index row))
                (fst (print_keymap_loop (sparse_keymap_getkeycode_all dev) ke 0))
              = [0 ..< 0x10000])"
  using print_keymap_loop_engine[of dev 0 ke] print_keymap_loop_full[of dev 0 ke]
  by (simp add: getkeycode_by_index[OF assms] del: upt_rec_numeral)

theorem get_by_index_range_witness:
  "table_length scenario_dev = 3 \<and>
   fst (sparse_keymap_getkeycode_all scenario_dev (request 1 2 [] 0)) = Inr () \<and>
   fst (sparse_keymap_getkeycode_all scenario_dev (request 1 3 [] 0)) = Inl EINVAL \<and>
   snd (print_keymap_loop (sparse_keymap_getkeycode_all scenario_dev) (request 1 3 [] 0) 0) = Break 3 \<and>
   table_length full_dev = 65536 \<and>
   fst (sparse_keymap_getkeycode_all full_dev (request 1 65535 [] 0)) = Inr () \<and>
   snd (print_keymap_loop (sparse_keymap_getkeycode_all full_dev) (request 1 3 [] 0) 0) = Loop_condition"
proof -
  have n: "table_length scenario_dev = 3"
    by (simp add: table_length_def table_entries_def scenario_dev_def scenario_table_def)
  have f: "ike_flags (request 1 i [] 0) AND INPUT_KEYMAP_BY_INDEX \<noteq> 0" for i
    by (simp add: request_def INPUT_KEYMAP_BY_INDEX_def)
  have i2: "unat (ike_index (request 1 2 [] 0)) = 2" and i3: "unat (ike_index (request 1 3 [] 0)) = 3"
    and i4: "unat (ike_index (request 1 65535 [] 0)) = 65535"
    by (simp_all add: request_def)
  from get_by_index_range[OF f[of 2], of scenario_dev] get_by_index_range[OF f[of 3], of scenario_dev]
    get_by_index_range[OF f[of 65535], of full_dev] get_by_index_range[OF f[of 3], of full_dev]
  show ?thesis by (simp add: n i2 i3 i4 table_length_full_dev del: upt_rec_numeral)
qed

section \<open>The help option of the client\<close>

text \<open>
  C8 says that the client called with \<open>-h\<close> alone prints the help and exits with status 0.
  The code does this instead: \<open>usage(0)\<close> prints the help on the standard output and
  returns, the option loop ends with \<open>act\<close> still 0, and \<open>usage(1)\<close> prints the help
  again on the standard error and exits with status 1.
\<close>

theorem main_help_only_exits_with_status_1:
  "main env [Opt_h] False =
     (1, \<lparr>proc_dev = - 1, proc_act = 0,
          proc_out = map (Text Stdout) usage_text @ map (Text Stderr) usage_text\<rparr>)"
  by (simp add: main_def main_switch_def usage_def write_out_def)

section \<open>The scancode in a response and in the table\<close>

text \<open>
  C9. Every successful \<open>get\<close> sets the length of the response to 4 and copies the 4 bytes
  of the located entry's stored code to the front of the response's scancode, whatever the
  kind of the locator and whatever length the request carried; the bytes behind them are
  left as the request had them.
\<close>

theorem get_reports_four_bytes:
  assumes "sparse_keymap_getkeycode_all dev ke = (Inr (), ke')"
  shows "ike_len ke' = 4 \<and> unat (ike_len ke') = 4 \<and>
     (\<exists>tbl k. dev_keycode dev = Some tbl \<and> sparse_keymap_locate_all tbl ke = Some k \<and>
        take 4 (ike_scancode ke') = word_bytes (ke_code (tbl ! k)) \<and>
        drop 4 (ike_scancode ke') = drop 4 (ike_scancode ke))"
  using assms
  by (auto simp: sparse_keymap_getkeycode_all_def Let_def memcpy_def length_word_bytes
      split: option.splits if_splits)

theorem get_reports_four_bytes_witness:
  "sparse_keymap_getkeycode_all scenario_dev (request 0 0 [0x44, 0x33] 0) =
     (Inr (), \<lparr>ike_flags = 0, ike_len = 4, ike_index = 1, ike_keycode = 5,
               ike_scancode = [0x44, 0x33, 0, 0] @ replicate 28 0\<rparr>) \<and>
   sparse_keymap_getkeycode_all scenario_dev (request 1 2 [] 0) =
     (Inr (), \<lparr>ike_flags = 1, ike_len = 4, ike_index = 2, ike_keycode = 0,
               ike_scancode = [0x66, 0x55, 0, 0] @ replicate 28 0\<rparr>)"
proof -
  have a: "sparse_keymap_getkeycode_all scenario_dev (request 0 0 [0x44, 0x33] 0) =
     (Inr (), \<lparr>ike_flags = 0, ike_len = 4, ike_index = 1, ike_keycode = 5,
               ike_scancode = [0x44, 0x33, 0, 0] @ replicate 28 0\<rparr>)"
    by (simp add: sparse_keymap_getkeycode_all_def scenario_eval sparse_keymap_get_key_index_def)
  have b: "sparse_keymap_getkeycode_all scenario_dev (request 1 2 [] 0) =
     (Inr (), \<lparr>ike_flags = 1, ike_len = 4, ike_index = 2, ike_keycode = 0,
               ike_scancode = [0x66, 0x55, 0, 0] @ replicate 28 0\<rparr>)"
    by (simp add: sparse_keymap_getkeycode_all_def scenario_eval sparse_keymap_get_key_index_def)
  from get_reports_four_bytes[OF a] get_reports_four_bytes[OF b] a b
  show ?thesis by simp
qed

text \<open>
  C10. Every successful \<open>set\<close> stores the new scancode zero-extended: the 4 bytes of the
  entry's stored code are afterwards the first \<open>len\<close> bytes of the request's scancode
  followed by zero bytes, so nothing of the previous code is left.
\<close>

theorem set_stores_scancode_zero_extended:
  assumes "sparse_keymap_setkeycode_all dev ke = (Inr old_keycode, dev')"
    and "length (ike_scancode ke) = 32"
  shows "\<exists>tbl tbl' k. dev_keycode dev = Some tbl \<and> sparse_keymap_locate_all tbl ke = Some k \<and>
     dev_keycode dev' = Some tbl' \<and> unat (ike_len ke) \<le> 4 \<and>
     word_bytes (ke_code (tbl' ! k)) =
       take (unat (ike_len ke)) (ike_scancode ke) @ replicate (4 - unat (ike_len ke)) 0"
proof -
  from setkeycode_success[OF assms(1)] obtain tbl k where tbl: "dev_keycode dev = Some tbl"
    and loc: "sparse_keymap_locate_all tbl ke = Some k" and len: "unat (ike_len ke) \<le> 4"
    by blast
  from len assms(2) have le: "unat (ike_len ke) \<le> length (ike_scancode ke)" by simp
  from assms(1) have "dev_keycode dev' = Some (tbl[k := \<lparr>ke_type =
      (if ike_keycode ke = 0
       then (if ke_type (tbl ! k) = KE_KEY then KE_IGNORE else ke_type (tbl ! k))
       else (if ke_type (tbl ! k) = KE_IGNORE then KE_KEY else ke_type (tbl ! k))),
      ke_code = bytes_word (memcpy (word_bytes 0) (ike_scancode ke) (unat (ike_len ke))),
      ke_keycode = ike_keycode ke\<rparr>])"
    unfolding setkeycode_located[OF tbl loc len] by auto
  then show ?thesis
    using tbl loc len locate_in_array[OF loc] stored_code_bytes[OF len le] by simp
qed

theorem set_stores_scancode_zero_extended_witness:
  "\<exists>tbl'. sparse_keymap_setkeycode_all scenario_dev (request 1 1 [0xAB] 9) =
      (Inr 5, \<lparr>dev_keycode = Some tbl', dev_keybit = {5, 9}\<rparr>) \<and>
    word_bytes (ke_code (tbl' ! 1)) = [0xAB, 0, 0, 0] \<and> ke_code (tbl' ! 1) = 0xAB"
proof -
  obtain d where a: "sparse_keymap_setkeycode_all scenario_dev (request 1 1 [0xAB] 9) = (Inr 5, d)"
    by (simp add: scenario_eval)
  have n: "length (ike_scancode (request 1 1 [0xAB] 9)) = 32" by (simp add: request_def)
  from set_stores_scancode_zero_extended[OF a n]
  obtain tbl' where "dev_keycode d = Some tbl'" by blast
  with a show ?thesis
    by (auto simp add: scenario_eval)
qed

end
